theory Spec2Isabelle
  imports Main "HOL-Library.Extended_Nat"
begin

section \<open>Documents\<close>

text \<open>
  A parsed OpenAPI document is a tree of JavaScript values.  An object is the list of its own
  enumerable properties in enumeration order (the order of \<^verbatim>\<open>Object.entries\<close>); a
  well-formed object has pairwise distinct keys.  \<open>JUndefined\<close> is the value of a missing
  property.  A \<open>string\<close> is the sequence of bytes of the UTF-8 encoding of the JavaScript
  string.  Members inherited through the prototype chain (such as \<^verbatim>\<open>toString\<close> or the
  \<^verbatim>\<open>__proto__\<close> accessor) are not part of the model.
\<close>

datatype json =
    JNull
  | JUndefined
  | JBool bool
  | JNum int
  | JStr string
  | JArr "json list"
  | JObj "(string \<times> json) list"

datatype error =
    URIError
  | TypeError
  | SyntaxError
  | Error string

text \<open>JavaScript truthiness: \<^verbatim>\<open>null\<close>, \<^verbatim>\<open>undefined\<close>, \<^verbatim>\<open>false\<close>, \<^verbatim>\<open>0\<close> and the empty string are falsy.\<close>

fun truthy :: "json \<Rightarrow> bool" where
  "truthy JNull = False"
| "truthy JUndefined = False"
| "truthy (JBool b) = b"
| "truthy (JNum n) = (n \<noteq> 0)"
| "truthy (JStr s) = (s \<noteq> [])"
| "truthy (JArr xs) = True"
| "truthy (JObj es) = True"

text \<open>\<^verbatim>\<open>typeof v === 'object'\<close> for a truthy value: arrays and objects.\<close>

fun is_object :: "json \<Rightarrow> bool" where
  "is_object (JArr xs) = True"
| "is_object (JObj es) = True"
| "is_object v = False"

subsection \<open>Array indices as property keys\<close>

definition digit_of :: "char \<Rightarrow> nat option" where
  "digit_of c = (let n = of_char c in
     if 48 \<le> n \<and> n \<le> (57::nat) then Some (n - 48) else None)"

fun digits_val :: "nat \<Rightarrow> string \<Rightarrow> nat option" where
  "digits_val acc [] = Some acc"
| "digits_val acc (c # cs) =
     (case digit_of c of None \<Rightarrow> None | Some d \<Rightarrow> digits_val (10 * acc + d) cs)"

text \<open>A key is an array index when it is the canonical decimal numeral of a number:
  \<^verbatim>\<open>"0"\<close>, or digits not starting with \<^verbatim>\<open>0\<close>.\<close>

definition index_of_key :: "string \<Rightarrow> nat option" where
  "index_of_key k =
     (case k of
        [] \<Rightarrow> None
      | c # cs \<Rightarrow> if c = CHR ''0'' \<and> cs \<noteq> [] then None else digits_val 0 k)"

text \<open>The \<^verbatim>\<open>in\<close> operator on an object value (own properties only).\<close>

fun has_key :: "json \<Rightarrow> string \<Rightarrow> bool" where
  "has_key (JObj es) k = (k \<in> fst ` set es)"
| "has_key (JArr xs) k =
     (k = ''length'' \<or> (case index_of_key k of None \<Rightarrow> False | Some i \<Rightarrow> i < length xs))"
| "has_key v k = False"

text \<open>Property access \<^verbatim>\<open>v[k]\<close> on objects and arrays; \<open>JUndefined\<close> when the property is missing.\<close>

fun property :: "json \<Rightarrow> string \<Rightarrow> json" where
  "property (JObj es) k = (case map_of es k of None \<Rightarrow> JUndefined | Some v \<Rightarrow> v)"
| "property (JArr xs) k =
     (if k = ''length'' then JNum (int (length xs))
      else case index_of_key k of
             None \<Rightarrow> JUndefined
           | Some i \<Rightarrow> if i < length xs then xs ! i else JUndefined)"
| "property (JStr s) k =
     (if k = ''length'' then JNum (int (length s))
      else case index_of_key k of
             None \<Rightarrow> JUndefined
           | Some i \<Rightarrow> if i < length s then JStr [s ! i] else JUndefined)"
| "property v k = JUndefined"

text \<open>The decimal numeral of an array index, and \<^verbatim>\<open>Object.entries\<close> / \<^verbatim>\<open>Object.keys\<close> of a
  truthy value.  (Indexing a string counts the bytes of the model, which are the characters
  of an ASCII string.)\<close>

fun key_of_index :: "nat \<Rightarrow> string" where
  "key_of_index n =
     (if n < 10 then [char_of (48 + n)]
      else key_of_index (n div 10) @ [char_of (48 + n mod 10)])"

fun entries_of :: "json \<Rightarrow> (string \<times> json) list" where
  "entries_of (JObj es) = es"
| "entries_of (JArr xs) = zip (map key_of_index [0..<length xs]) xs"
| "entries_of (JStr s) = zip (map key_of_index [0..<length s]) (map (\<lambda>c. JStr [c]) s)"
| "entries_of v = []"

definition keys_of :: "json \<Rightarrow> string list" where
  "keys_of v = map fst (entries_of v)"

text \<open>\<^verbatim>\<open>v == null\<close>: the values on which a property access raises \<^verbatim>\<open>TypeError\<close>.\<close>

definition nullish :: "json \<Rightarrow> bool" where
  "nullish v = (v = JNull \<or> v = JUndefined)"

subsection \<open>Strings\<close>

text \<open>Case conversion of the ASCII letters, and \<^verbatim>\<open>s.includes(p)\<close>.\<close>

definition toUpperCase :: "string \<Rightarrow> string" where
  "toUpperCase s =
     map (\<lambda>c. let n = of_char c in if 97 \<le> n \<and> n \<le> (122::nat) then char_of (n - 32) else c) s"

definition toLowerCase :: "string \<Rightarrow> string" where
  "toLowerCase s =
     map (\<lambda>c. let n = of_char c in if 65 \<le> n \<and> n \<le> (90::nat) then char_of (n + 32) else c) s"

fun includes_str :: "string \<Rightarrow> string \<Rightarrow> bool" where
  "includes_str [] p = (p = [])"
| "includes_str (c # cs) p = (take (length p) (c # cs) = p \<or> includes_str cs p)"

section \<open>RefResolver\<close>

subsection \<open>String helpers of \<^verbatim>\<open>resolveRef\<close>\<close>

text \<open>\<^verbatim>\<open>s.split('/')\<close>: always at least one piece.\<close>

fun split_slash :: "string \<Rightarrow> string list" where
  "split_slash [] = [[]]"
| "split_slash (c # cs) =
     (if c = CHR ''/'' then [] # split_slash cs
      else (case split_slash cs of
              [] \<Rightarrow> [[c]]
            | p # ps \<Rightarrow> (c # p) # ps))"

text \<open>\<^verbatim>\<open>s.replace(/~1/g, '/')\<close> and \<^verbatim>\<open>s.replace(/~0/g, '~')\<close>: every match, left to right.\<close>

fun replace_tilde1 :: "string \<Rightarrow> string" where
  "replace_tilde1 (a # b # cs) =
     (if a = CHR ''~'' \<and> b = CHR ''1'' then CHR ''/'' # replace_tilde1 cs
      else a # replace_tilde1 (b # cs))"
| "replace_tilde1 cs = cs"

fun replace_tilde0 :: "string \<Rightarrow> string" where
  "replace_tilde0 (a # b # cs) =
     (if a = CHR ''~'' \<and> b = CHR ''0'' then CHR ''~'' # replace_tilde0 cs
      else a # replace_tilde0 (b # cs))"
| "replace_tilde0 cs = cs"

subsection \<open>\<^verbatim>\<open>decodeURIComponent\<close>\<close>

definition hex_of :: "char \<Rightarrow> nat option" where
  "hex_of c = (let n = of_char c in
     if 48 \<le> n \<and> n \<le> (57::nat) then Some (n - 48)
     else if 65 \<le> n \<and> n \<le> 70 then Some (n - 55)
     else if 97 \<le> n \<and> n \<le> 102 then Some (n - 87)
     else None)"

definition hex_octet :: "char \<Rightarrow> char \<Rightarrow> nat option" where
  "hex_octet a b =
     (case hex_of a of
        None \<Rightarrow> None
      | Some h \<Rightarrow> (case hex_of b of None \<Rightarrow> None | Some l \<Rightarrow> Some (16 * h + l)))"

text \<open>The number of leading 1 bits of an octet.\<close>

definition leading_ones :: "nat \<Rightarrow> nat" where
  "leading_ones b =
     (if b < 128 then 0 else if b < 192 then 1 else if b < 224 then 2
      else if b < 240 then 3 else if b < 248 then 4 else 5)"

text \<open>Reads \<open>n\<close> further escapes \<^verbatim>\<open>%XX\<close>; fails when one of them is missing or malformed.\<close>

fun continuation_octets :: "nat \<Rightarrow> string \<Rightarrow> nat list option" where
  "continuation_octets 0 cs = Some []"
| "continuation_octets (Suc n) (p # a # b # cs) =
     (if p \<noteq> CHR ''%'' then None
      else case hex_octet a b of
             None \<Rightarrow> None
           | Some o1 \<Rightarrow> map_option (Cons o1) (continuation_octets n cs))"
| "continuation_octets (Suc n) cs = None"

definition is_cont :: "nat \<Rightarrow> bool" where
  "is_cont b = (128 \<le> b \<and> b \<le> 191)"

text \<open>The octets are the UTF-8 encoding of one code point beyond ASCII: no overlong form, no
  surrogate, nothing above U+10FFFF.\<close>

fun valid_utf8 :: "nat list \<Rightarrow> bool" where
  "valid_utf8 [a, b] = (194 \<le> a \<and> a \<le> 223 \<and> is_cont b)"
| "valid_utf8 [a, b, c] =
     (is_cont c \<and>
      (if a = 224 then 160 \<le> b \<and> b \<le> 191
       else if a = 237 then 128 \<le> b \<and> b \<le> 159
       else 225 \<le> a \<and> a \<le> 239 \<and> is_cont b))"
| "valid_utf8 [a, b, c, d] =
     (is_cont c \<and> is_cont d \<and>
      (if a = 240 then 144 \<le> b \<and> b \<le> 191
       else if a = 244 then 128 \<le> b \<and> b \<le> 143
       else 241 \<le> a \<and> a \<le> 243 \<and> is_cont b))"
| "valid_utf8 bs = False"

text \<open>\<open>None\<close> is the exception \<^verbatim>\<open>URIError\<close>.\<close>

fun decodeURIComponent :: "string \<Rightarrow> string option" where
  "decodeURIComponent [] = Some []"
| "decodeURIComponent (c # cs) =
     (if c \<noteq> CHR ''%'' then map_option (Cons c) (decodeURIComponent cs)
      else case cs of
             a # b # rest \<Rightarrow>
               (case hex_octet a b of
                  None \<Rightarrow> None
                | Some B \<Rightarrow>
                    let n = leading_ones B in
                    if n = 0 then map_option (Cons (char_of B)) (decodeURIComponent rest)
                    else if n = 1 \<or> n > 4 then None
                    else (case continuation_octets (n - 1) rest of
                            None \<Rightarrow> None
                          | Some os \<Rightarrow>
                              if valid_utf8 (B # os)
                              then map_option ((@) (map char_of (B # os)))
                                     (decodeURIComponent (drop (3 * (n - 1)) rest))
                              else None))
           | _ \<Rightarrow> None)"

subsection \<open>\<^verbatim>\<open>resolveRef\<close>\<close>

definition unresolvable :: "string \<Rightarrow> json" where
  "unresolvable ref = JObj [(''$unresolvableRef'', JStr ref)]"

definition circular :: "string \<Rightarrow> json" where
  "circular ref = JObj [(''$circularRef'', JStr ref)]"

text \<open>The key looked up for one pointer segment, in the order the source applies the
  transformations: \<^verbatim>\<open>decodeURIComponent(segment.replace(/~1/g, '/').replace(/~0/g, '~'))\<close>.\<close>

definition decode_segment :: "string \<Rightarrow> string option" where
  "decode_segment segment = decodeURIComponent (replace_tilde0 (replace_tilde1 segment))"

text \<open>The loop over the segments; \<open>current\<close> is the node reached so far.\<close>

fun walk :: "string \<Rightarrow> json \<Rightarrow> string list \<Rightarrow> error + json" where
  "walk ref current [] = Inr current"
| "walk ref current (segment # path) =
     (case decode_segment segment of
        None \<Rightarrow> Inl URIError
      | Some decodedSegment \<Rightarrow>
          if truthy current \<and> is_object current \<and> has_key current decodedSegment
          then walk ref (property current decodedSegment) path
          else Inr (unresolvable ref))"

definition resolveRef :: "json \<Rightarrow> string \<Rightarrow> error + json" where
  "resolveRef spec ref =
     (if take 2 ref \<noteq> ''#/'' then Inr (unresolvable ref)
      else walk ref spec (split_slash (drop 2 ref)))"

subsection \<open>\<^verbatim>\<open>resolveAllRefs\<close>\<close>

text \<open>\<^verbatim>\<open>'$ref' in typedObj && typeof typedObj.$ref === 'string'\<close>: the pointer of a reference node.\<close>

definition ref_of :: "(string \<times> json) list \<Rightarrow> string option" where
  "ref_of typedObj = (case map_of typedObj ''$ref'' of Some (JStr r) \<Rightarrow> Some r | _ \<Rightarrow> None)"

text \<open>
  The resolver's field \<^verbatim>\<open>visitedRefs\<close> is threaded through every call: each function takes
  the set and returns it with its result.  An exception (\<open>Inl\<close>) leaves the set as it was when
  the exception was raised; the source has no \<^verbatim>\<open>finally\<close>.  \<open>maxDepth\<close> is a number of the
  source; \<open>\<infinity>\<close> stands for a limit that no depth reaches (\<^verbatim>\<open>Infinity\<close>, \<^verbatim>\<open>NaN\<close>), and a
  fractional limit behaves as the next integer above it.  \<open>resolve_items\<close> is the callback of
  \<^verbatim>\<open>obj.map\<close> run over the elements, \<open>resolve_entries\<close> the loop over
  \<^verbatim>\<open>Object.entries(typedObj)\<close>.
\<close>

function resolveAllRefs ::
    "json \<Rightarrow> string set \<Rightarrow> json \<Rightarrow> enat \<Rightarrow> nat \<Rightarrow> (error + json) \<times> string set"
  and resolve_items ::
    "json \<Rightarrow> string set \<Rightarrow> json list \<Rightarrow> enat \<Rightarrow> nat \<Rightarrow> (error + json list) \<times> string set"
  and resolve_entries ::
    "json \<Rightarrow> string set \<Rightarrow> (string \<times> json) list \<Rightarrow> enat \<Rightarrow> nat
      \<Rightarrow> (error + (string \<times> json) list) \<times> string set"
where
  "resolveAllRefs spec visitedRefs obj maxDepth currentDepth =
     (if maxDepth \<le> enat currentDepth then (Inr obj, visitedRefs)
      else case obj of
        JNull \<Rightarrow> (Inr obj, visitedRefs)
      | JUndefined \<Rightarrow> (Inr obj, visitedRefs)
      | JArr items \<Rightarrow>
          (case resolve_items spec visitedRefs items maxDepth currentDepth of
             (Inl e, vis) \<Rightarrow> (Inl e, vis)
           | (Inr result, vis) \<Rightarrow> (Inr (JArr result), vis))
      | JObj typedObj \<Rightarrow>
          (case ref_of typedObj of
             Some ref \<Rightarrow>
               if ref \<in> visitedRefs then (Inr (circular ref), visitedRefs)
               else (case resolveRef spec ref of
                       Inl e \<Rightarrow> (Inl e, insert ref visitedRefs)
                     | Inr resolved \<Rightarrow>
                         (case resolveAllRefs spec (insert ref visitedRefs) resolved maxDepth
                                 (currentDepth + 1) of
                            (Inl e, vis) \<Rightarrow> (Inl e, vis)
                          | (Inr result, vis) \<Rightarrow> (Inr result, vis - {ref})))
           | None \<Rightarrow>
               (case resolve_entries spec visitedRefs typedObj maxDepth currentDepth of
                  (Inl e, vis) \<Rightarrow> (Inl e, vis)
                | (Inr result, vis) \<Rightarrow> (Inr (JObj result), vis)))
      | _ \<Rightarrow> (Inr obj, visitedRefs))"
| "resolve_items spec visitedRefs [] maxDepth currentDepth = (Inr [], visitedRefs)"
| "resolve_items spec visitedRefs (item # items) maxDepth currentDepth =
     (case resolveAllRefs spec visitedRefs item maxDepth currentDepth of
        (Inl e, vis) \<Rightarrow> (Inl e, vis)
      | (Inr r, vis) \<Rightarrow>
          (case resolve_items spec vis items maxDepth currentDepth of
             (Inl e, vis') \<Rightarrow> (Inl e, vis')
           | (Inr rs, vis') \<Rightarrow> (Inr (r # rs), vis')))"
| "resolve_entries spec visitedRefs [] maxDepth currentDepth = (Inr [], visitedRefs)"
| "resolve_entries spec visitedRefs ((key, v) # entries) maxDepth currentDepth =
     (case resolveAllRefs spec visitedRefs v maxDepth currentDepth of
        (Inl e, vis) \<Rightarrow> (Inl e, vis)
      | (Inr r, vis) \<Rightarrow>
          (case resolve_entries spec vis entries maxDepth currentDepth of
             (Inl e, vis') \<Rightarrow> (Inl e, vis')
           | (Inr rs, vis') \<Rightarrow> (Inr ((key, r) # rs), vis')))"
  by pat_completeness auto

text \<open>The pointers of all reference nodes of a value, and the measure of the recursion: the
  number of pointers of the document and of the value that are not on the active path, then
  the size of the value.\<close>

fun refs_of :: "json \<Rightarrow> string set" where
  "refs_of (JArr xs) = (\<Union>x \<in> set xs. refs_of x)"
| "refs_of (JObj es) =
     (case ref_of es of Some r \<Rightarrow> {r} | None \<Rightarrow> {}) \<union> (\<Union>e \<in> set es. refs_of (snd e))"
| "refs_of v = {}"

fun resolve_measure ::
  "(json \<times> string set \<times> json \<times> enat \<times> nat) +
   (json \<times> string set \<times> json list \<times> enat \<times> nat) +
   (json \<times> string set \<times> (string \<times> json) list \<times> enat \<times> nat) \<Rightarrow> nat \<times> nat" where
  "resolve_measure (Inl (spec, vis, obj, m, d)) =
     (card ((refs_of spec \<union> refs_of obj) - vis), 2 * size obj)"
| "resolve_measure (Inr (Inl (spec, vis, items, m, d))) =
     (card ((refs_of spec \<union> refs_of (JArr items)) - vis), 2 * size (JArr items) - 1)"
| "resolve_measure (Inr (Inr (spec, vis, entries, m, d))) =
     (card ((refs_of spec \<union> refs_of (JArr (map snd entries))) - vis),
      2 * size (JObj entries) - 1)"

section \<open>OpenAPIManager\<close>

record EndpointInfo =
  path :: string
  "method" :: string
  summary :: json
  description :: json
  tags :: json
  operationId :: json

text \<open>The fields of \<^verbatim>\<open>SchemaInfo\<close> are \<^verbatim>\<open>name\<close>, \<^verbatim>\<open>type\<close>, \<^verbatim>\<open>properties\<close> and \<^verbatim>\<open>description\<close>.\<close>

record SchemaInfo =
  name :: string
  schema_type :: json
  properties :: "string list option"
  schema_description :: json

record CachedSpec =
  spec :: json
  fetchedAt :: int
  endpointIndex :: "EndpointInfo list"
  schemaIndex :: "SchemaInfo list"

subsection \<open>\<^verbatim>\<open>buildEndpointIndex\<close>\<close>

definition http_methods :: "string list" where
  "http_methods = [''get'', ''post'', ''put'', ''patch'', ''delete'', ''options'', ''head'', ''trace'']"

text \<open>The object pushed for the verb \<open>m\<close> of a path item.\<close>

definition endpoint_entry :: "string \<Rightarrow> json \<Rightarrow> string \<Rightarrow> EndpointInfo" where
  "endpoint_entry p pathItem m =
     (let operation = property pathItem m in
      \<lparr>path = p, method = toUpperCase m,
       summary = property operation ''summary'',
       description = property operation ''description'',
       tags = property operation ''tags'',
       operationId = property operation ''operationId''\<rparr>)"

text \<open>The inner loop over the verbs and the outer loop over \<^verbatim>\<open>Object.entries(spec.paths)\<close>;
  \<open>endpoints\<close> is the array being filled by \<^verbatim>\<open>push\<close>.\<close>

fun methods_loop :: "string \<Rightarrow> json \<Rightarrow> string list \<Rightarrow> EndpointInfo list \<Rightarrow> EndpointInfo list" where
  "methods_loop p pathItem [] endpoints = endpoints"
| "methods_loop p pathItem (m # ms) endpoints =
     methods_loop p pathItem ms
       (if truthy (property pathItem m) then endpoints @ [endpoint_entry p pathItem m]
        else endpoints)"

fun paths_loop :: "(string \<times> json) list \<Rightarrow> EndpointInfo list \<Rightarrow> EndpointInfo list" where
  "paths_loop [] endpoints = endpoints"
| "paths_loop ((p, pathItem) # rest) endpoints =
     paths_loop rest
       (if \<not> truthy pathItem then endpoints
        else methods_loop p pathItem http_methods endpoints)"

definition buildEndpointIndex :: "json \<Rightarrow> error + EndpointInfo list" where
  "buildEndpointIndex document =
     (if nullish document then Inl TypeError
      else if \<not> truthy (property document ''paths'') then Inr []
      else Inr (paths_loop (entries_of (property document ''paths'')) []))"

subsection \<open>\<^verbatim>\<open>buildSchemaIndex\<close>\<close>

text \<open>\<^verbatim>\<open>spec.components?.schemas\<close>\<close>

definition components_schemas :: "json \<Rightarrow> error + json" where
  "components_schemas document =
     (if nullish document then Inl TypeError
      else if nullish (property document ''components'') then Inr JUndefined
      else Inr (property (property document ''components'') ''schemas''))"

text \<open>The \<^verbatim>\<open>in\<close> operator raises \<^verbatim>\<open>TypeError\<close> on a value that is not an object.\<close>

fun schemas_loop :: "(string \<times> json) list \<Rightarrow> SchemaInfo list \<Rightarrow> error + SchemaInfo list" where
  "schemas_loop [] schemas = Inr schemas"
| "schemas_loop ((n, schema) # rest) schemas =
     (if \<not> truthy schema then schemas_loop rest schemas
      else if \<not> is_object schema then Inl TypeError
      else if has_key schema ''$ref'' then schemas_loop rest schemas
      else schemas_loop rest
             (schemas @
              [\<lparr>name = n, schema_type = property schema ''type'',
                properties =
                  (if truthy (property schema ''properties'')
                   then Some (keys_of (property schema ''properties'')) else None),
                schema_description = property schema ''description''\<rparr>]))"

definition buildSchemaIndex :: "json \<Rightarrow> error + SchemaInfo list" where
  "buildSchemaIndex document =
     (case components_schemas document of
        Inl e \<Rightarrow> Inl e
      | Inr components \<Rightarrow>
          if \<not> truthy components then Inr []
          else schemas_loop (entries_of components) [])"

subsection \<open>\<^verbatim>\<open>getSpec\<close>\<close>

text \<open>
  The manager's two fields; \<open>fetchPromise\<close> records whether a fetch is in flight.  A call of
  the asynchronous \<^verbatim>\<open>getSpec\<close> runs up to its first suspension (\<open>getSpec_enter\<close>, at the time
  \<open>now\<close>): it returns the cached document, or it returns the promise of the fetch in flight
  (\<open>Joined\<close>: the caller's promise settles exactly as the fetch does), or it starts the fetch
  and suspends at \<^verbatim>\<open>await\<close> inside \<^verbatim>\<open>try\<close> (\<open>Awaiting\<close>).  \<open>getSpec_resume\<close> is the rest of the
  body of the call that started the fetch, run when the fetch has settled with \<open>fetched\<close>.
\<close>

record OpenAPIManager =
  cache :: "CachedSpec option"
  fetchPromise :: bool

datatype getSpec_status = Done json | Joined | Awaiting

definition join_or_fetch :: "OpenAPIManager \<Rightarrow> getSpec_status \<times> OpenAPIManager" where
  "join_or_fetch m =
     (if fetchPromise m then (Joined, m) else (Awaiting, m\<lparr>fetchPromise := True\<rparr>))"

definition getSpec_enter :: "int \<Rightarrow> int \<Rightarrow> OpenAPIManager \<Rightarrow> getSpec_status \<times> OpenAPIManager" where
  "getSpec_enter cacheTtl now m =
     (case cache m of
        None \<Rightarrow> join_or_fetch m
      | Some c \<Rightarrow>
          if now - fetchedAt c < cacheTtl then (Done (spec c), m) else join_or_fetch m)"

definition build_cache :: "int \<Rightarrow> json \<Rightarrow> error + CachedSpec" where
  "build_cache now document =
     (case buildEndpointIndex document of
        Inl e \<Rightarrow> Inl e
      | Inr ei \<Rightarrow>
          (case buildSchemaIndex document of
             Inl e \<Rightarrow> Inl e
           | Inr si \<Rightarrow>
               Inr \<lparr>spec = document, fetchedAt = now, endpointIndex = ei, schemaIndex = si\<rparr>))"

definition getSpec_resume ::
    "int \<Rightarrow> error + json \<Rightarrow> OpenAPIManager \<Rightarrow> (error + json) \<times> OpenAPIManager" where
  "getSpec_resume now fetched m =
     (case (case fetched of Inl e \<Rightarrow> Inl e | Inr document \<Rightarrow> build_cache now document) of
        Inr c \<Rightarrow> (Inr (spec c), m\<lparr>cache := Some c, fetchPromise := False\<rparr>)
      | Inl e \<Rightarrow>
          (case cache m of
             Some c \<Rightarrow> (Inr (spec c), m\<lparr>fetchPromise := False\<rparr>)
           | None \<Rightarrow> (Inl e, m\<lparr>fetchPromise := False\<rparr>)))"

text \<open>
  Calls and the settling of the fetch interleave on one thread.  The system is the manager,
  the caller suspended in \<open>getSpec_resume\<close> (if any), the callers that hold the promise of
  the fetch in flight, and what each finished call gave its caller.
\<close>

datatype event = Call nat int | FetchSettles int "error + json"

record system =
  manager :: OpenAPIManager
  initiator :: "nat option"
  joiners :: "nat list"
  returned :: "(nat \<times> (error + json)) list"

fun step :: "int \<Rightarrow> system \<Rightarrow> event \<Rightarrow> system" where
  "step cacheTtl s (Call caller now) =
     (case getSpec_enter cacheTtl now (manager s) of
        (Done document, m) \<Rightarrow> s\<lparr>manager := m, returned := returned s @ [(caller, Inr document)]\<rparr>
      | (Joined, m) \<Rightarrow> s\<lparr>manager := m, joiners := joiners s @ [caller]\<rparr>
      | (Awaiting, m) \<Rightarrow> s\<lparr>manager := m, initiator := Some caller\<rparr>)"
| "step cacheTtl s (FetchSettles now fetched) =
     (case initiator s of
        None \<Rightarrow> s
      | Some caller \<Rightarrow>
          (case getSpec_resume now fetched (manager s) of
             (result, m) \<Rightarrow>
               s\<lparr>manager := m, initiator := None, joiners := [],
                 returned := returned s @ [(caller, result)] @
                             map (\<lambda>j. (j, fetched)) (joiners s)\<rparr>))"

definition run :: "int \<Rightarrow> event list \<Rightarrow> system" where
  "run cacheTtl events =
     foldl (step cacheTtl)
       \<lparr>manager = \<lparr>cache = None, fetchPromise = False\<rparr>, initiator = None, joiners = [],
        returned = []\<rparr> events"

subsection \<open>\<^verbatim>\<open>searchEndpoints\<close> and \<^verbatim>\<open>searchSchemas\<close>\<close>

text \<open>
  \<^verbatim>\<open>new RegExp(pattern, 'i')\<close> is a parameter \<open>RegExp\<close> of the model: \<open>None\<close> when the
  pattern is not a regular expression (\<^verbatim>\<open>SyntaxError\<close>), otherwise the predicate
  \<^verbatim>\<open>regex.test\<close> on a value.  The numbers \<^verbatim>\<open>limit\<close> and \<^verbatim>\<open>offset\<close> are integers when present.
\<close>

type_synonym RegExp = "string \<Rightarrow> (json \<Rightarrow> bool) option"

text \<open>\<^verbatim>\<open>x || d\<close> on an optional number.\<close>

definition or_default :: "int option \<Rightarrow> int \<Rightarrow> int" where
  "or_default x d = (case x of None \<Rightarrow> d | Some n \<Rightarrow> if n = 0 then d else n)"

text \<open>\<^verbatim>\<open>if (options.pattern)\<close>: the string when it is present and not empty.\<close>

definition given :: "string option \<Rightarrow> string option" where
  "given x = (case x of None \<Rightarrow> None | Some s \<Rightarrow> if s = [] then None else Some s)"

text \<open>\<^verbatim>\<open>xs.slice(start, end)\<close> with integer arguments: a negative index counts from the end.\<close>

definition slice :: "'a list \<Rightarrow> int \<Rightarrow> int \<Rightarrow> 'a list" where
  "slice xs start end =
     (let len = int (length xs);
          k = (if start < 0 then max (len + start) 0 else min start len);
          final = (if end < 0 then max (len + end) 0 else min end len)
      in take (nat (final - k)) (drop (nat k) xs))"

text \<open>\<^verbatim>\<open>xs.filter(f)\<close> and \<^verbatim>\<open>xs.some(f)\<close> for a callback that may raise.\<close>

fun filter_err :: "('a \<Rightarrow> error + bool) \<Rightarrow> 'a list \<Rightarrow> error + 'a list" where
  "filter_err f [] = Inr []"
| "filter_err f (x # xs) =
     (case f x of
        Inl e \<Rightarrow> Inl e
      | Inr b \<Rightarrow>
          (case filter_err f xs of
             Inl e \<Rightarrow> Inl e
           | Inr ys \<Rightarrow> Inr (if b then x # ys else ys)))"

fun some_err :: "('a \<Rightarrow> error + bool) \<Rightarrow> 'a list \<Rightarrow> error + bool" where
  "some_err f [] = Inr False"
| "some_err f (x # xs) =
     (case f x of Inl e \<Rightarrow> Inl e | Inr b \<Rightarrow> if b then Inr True else some_err f xs)"

text \<open>\<^verbatim>\<open>e.tags.includes(tag)\<close>: membership in an array, containment in a string, and
  \<^verbatim>\<open>TypeError\<close> on any other truthy value, which has no such method.\<close>

fun tags_includes :: "json \<Rightarrow> string \<Rightarrow> error + bool" where
  "tags_includes (JArr xs) tag = Inr (JStr tag \<in> set xs)"
| "tags_includes (JStr s) tag = Inr (includes_str s tag)"
| "tags_includes v tag = Inl TypeError"

definition filter_pathPattern ::
    "RegExp \<Rightarrow> string option \<Rightarrow> EndpointInfo list \<Rightarrow> error + EndpointInfo list" where
  "filter_pathPattern RegExp pathPattern results =
     (case given pathPattern of
        None \<Rightarrow> Inr results
      | Some pattern \<Rightarrow>
          (case RegExp pattern of
             None \<Rightarrow> Inl SyntaxError
           | Some test \<Rightarrow> Inr (filter (\<lambda>e. test (JStr (path e))) results)))"

definition filter_method :: "string option \<Rightarrow> EndpointInfo list \<Rightarrow> EndpointInfo list" where
  "filter_method m results =
     (case given m of
        None \<Rightarrow> results
      | Some queried \<Rightarrow> filter (\<lambda>e. method e = toUpperCase queried) results)"

definition filter_tags ::
    "string list option \<Rightarrow> EndpointInfo list \<Rightarrow> error + EndpointInfo list" where
  "filter_tags ts results =
     (case ts of
        None \<Rightarrow> Inr results
      | Some queried \<Rightarrow>
          if queried = [] then Inr results
          else filter_err
                 (\<lambda>e. if \<not> truthy (tags e) then Inr False
                      else some_err (tags_includes (tags e)) queried) results)"

definition filter_description ::
    "RegExp \<Rightarrow> string option \<Rightarrow> EndpointInfo list \<Rightarrow> error + EndpointInfo list" where
  "filter_description RegExp d results =
     (case given d of
        None \<Rightarrow> Inr results
      | Some pattern \<Rightarrow>
          (case RegExp pattern of
             None \<Rightarrow> Inl SyntaxError
           | Some test \<Rightarrow>
               Inr (filter (\<lambda>e. (truthy (summary e) \<and> test (summary e)) \<or>
                                 (truthy (description e) \<and> test (description e))) results)))"

text \<open>The four filters in the order of the source; the first exception ends the search.\<close>

definition filter_endpoints ::
    "RegExp \<Rightarrow> string option \<Rightarrow> string option \<Rightarrow> string list option \<Rightarrow> string option
      \<Rightarrow> EndpointInfo list \<Rightarrow> error + EndpointInfo list" where
  "filter_endpoints RegExp pathPattern m ts d results =
     (case filter_pathPattern RegExp pathPattern results of
        Inl e \<Rightarrow> Inl e
      | Inr r1 \<Rightarrow>
          (case filter_tags ts (filter_method m r1) of
             Inl e \<Rightarrow> Inl e
           | Inr r3 \<Rightarrow> filter_description RegExp d r3))"

definition searchEndpoints ::
    "RegExp \<Rightarrow> CachedSpec option \<Rightarrow> string option \<Rightarrow> string option \<Rightarrow> string list option
      \<Rightarrow> string option \<Rightarrow> int option \<Rightarrow> int option \<Rightarrow> error + EndpointInfo list \<times> nat" where
  "searchEndpoints RegExp c pathPattern m ts d limit offset =
     (case c of
        None \<Rightarrow> Inl (Error ''Failed to load OpenAPI spec'')
      | Some cached \<Rightarrow>
          (case filter_endpoints RegExp pathPattern m ts d (endpointIndex cached) of
             Inl e \<Rightarrow> Inl e
           | Inr results \<Rightarrow>
               Inr (slice results (or_default offset 0)
                      (or_default offset 0 + or_default limit 20),
                    length results)))"

definition filter_namePattern ::
    "RegExp \<Rightarrow> string option \<Rightarrow> SchemaInfo list \<Rightarrow> error + SchemaInfo list" where
  "filter_namePattern RegExp namePattern results =
     (case given namePattern of
        None \<Rightarrow> Inr results
      | Some pattern \<Rightarrow>
          (case RegExp pattern of
             None \<Rightarrow> Inl SyntaxError
           | Some test \<Rightarrow> Inr (filter (\<lambda>s. test (JStr (name s))) results)))"

definition filter_propertyName :: "string option \<Rightarrow> SchemaInfo list \<Rightarrow> SchemaInfo list" where
  "filter_propertyName propertyName results =
     (case given propertyName of
        None \<Rightarrow> results
      | Some queried \<Rightarrow>
          filter (\<lambda>s. case properties s of
                        None \<Rightarrow> False
                      | Some ps \<Rightarrow>
                          list_ex (\<lambda>p. includes_str (toLowerCase p) (toLowerCase queried)) ps)
            results)"

definition filter_schemas ::
    "RegExp \<Rightarrow> string option \<Rightarrow> string option \<Rightarrow> SchemaInfo list \<Rightarrow> error + SchemaInfo list" where
  "filter_schemas RegExp namePattern propertyName results =
     (case filter_namePattern RegExp namePattern results of
        Inl e \<Rightarrow> Inl e
      | Inr r1 \<Rightarrow> Inr (filter_propertyName propertyName r1))"

definition searchSchemas ::
    "RegExp \<Rightarrow> CachedSpec option \<Rightarrow> string option \<Rightarrow> string option \<Rightarrow> int option \<Rightarrow> int option
      \<Rightarrow> error + SchemaInfo list \<times> nat" where
  "searchSchemas RegExp c namePattern propertyName limit offset =
     (case c of
        None \<Rightarrow> Inl (Error ''Failed to load OpenAPI spec'')
      | Some cached \<Rightarrow>
          (case filter_schemas RegExp namePattern propertyName (schemaIndex cached) of
             Inl e \<Rightarrow> Inl e
           | Inr results \<Rightarrow>
               Inr (slice results (or_default offset 0)
                      (or_default offset 0 + or_default limit 20),
                    length results)))"

subsection \<open>The tools \<^verbatim>\<open>search_endpoints\<close> and \<^verbatim>\<open>search_schemas\<close>\<close>

record 'a search_result =
  items :: "'a list"
  total :: nat
  limit :: int
  offset :: int
  hasMore :: bool

definition paginate :: "int option \<Rightarrow> int option \<Rightarrow> 'a list \<times> nat \<Rightarrow> 'a search_result" where
  "paginate lmt ofs r =
     \<lparr>items = fst r, total = snd r, limit = or_default lmt 20, offset = or_default ofs 0,
      hasMore = (or_default ofs 0 + int (length (fst r)) < int (snd r))\<rparr>"

definition SearchEndpointsTool_execute ::
    "RegExp \<Rightarrow> CachedSpec option \<Rightarrow> string option \<Rightarrow> string option \<Rightarrow> string list option
      \<Rightarrow> string option \<Rightarrow> int option \<Rightarrow> int option \<Rightarrow> error + EndpointInfo search_result" where
  "SearchEndpointsTool_execute RegExp c pathPattern m ts d lmt ofs =
     map_sum id (paginate lmt ofs) (searchEndpoints RegExp c pathPattern m ts d lmt ofs)"

definition SearchSchemasTool_execute ::
    "RegExp \<Rightarrow> CachedSpec option \<Rightarrow> string option \<Rightarrow> string option \<Rightarrow> int option \<Rightarrow> int option
      \<Rightarrow> error + SchemaInfo search_result" where
  "SearchSchemasTool_execute RegExp c namePattern propertyName lmt ofs =
     map_sum id (paginate lmt ofs) (searchSchemas RegExp c namePattern propertyName lmt ofs)"

subsection \<open>\<^verbatim>\<open>getSchemaDetails\<close>\<close>

text \<open>The body after \<^verbatim>\<open>await this.getSpec()\<close> has returned \<open>document\<close>; the resolver is a new
  one, so its \<^verbatim>\<open>visitedRefs\<close> is empty.\<close>



section \<open>The specification's notions\<close>

text \<open>
  Resolution with a budget of reference hops, as the specification words it: with no hop
  left the value is returned unchanged; a sequence and a plain keyed container pass the
  budget on to their members unchanged; a reference node on the active path gives the
  circular marker, and any other reference node spends one hop on its target.
\<close>

fun expand :: "json \<Rightarrow> string set \<Rightarrow> nat \<Rightarrow> json \<Rightarrow> error + json"
  and expand_items :: "json \<Rightarrow> string set \<Rightarrow> nat \<Rightarrow> json list \<Rightarrow> error + json list"
  and expand_entries ::
    "json \<Rightarrow> string set \<Rightarrow> nat \<Rightarrow> (string \<times> json) list \<Rightarrow> error + (string \<times> json) list"
where
  "expand document active 0 v = Inr v"
| "expand document active (Suc n) v =
     (case v of
        JArr xs \<Rightarrow> map_sum id JArr (expand_items document active (Suc n) xs)
      | JObj es \<Rightarrow>
          (case ref_of es of
             Some ref \<Rightarrow>
               if ref \<in> active then Inr (circular ref)
               else (case resolveRef document ref of
                       Inl e \<Rightarrow> Inl e
                     | Inr target \<Rightarrow> expand document (insert ref active) n target)
           | None \<Rightarrow> map_sum id JObj (expand_entries document active (Suc n) es))
      | _ \<Rightarrow> Inr v)"
| "expand_items document active n [] = Inr []"
| "expand_items document active n (x # xs) =
     (case expand document active n x of
        Inl e \<Rightarrow> Inl e
      | Inr y \<Rightarrow> map_sum id (Cons y) (expand_items document active n xs))"
| "expand_entries document active n [] = Inr []"
| "expand_entries document active n ((k, x) # es) =
     (case expand document active n x of
        Inl e \<Rightarrow> Inl e
      | Inr y \<Rightarrow> map_sum id (Cons (k, y)) (expand_entries document active n es))"





text \<open>The (path, verb) pairs of the entries of a paths object whose operation is present:
  paths in the order of the object, and for each path the verbs in the fixed order,
  uppercased.\<close>

definition verb_pairs :: "(string \<times> json) list \<Rightarrow> (string \<times> string) list" where
  "verb_pairs es =
     concat (map (\<lambda>(p, item). map (\<lambda>m. (p, toUpperCase m))
                    (filter (\<lambda>m. truthy item \<and> truthy (property item m)) http_methods)) es)"


section \<open>Example documents\<close>


text \<open>Two operations on one path, and two schemas that refer to each other.\<close>

definition petstore :: json where
  "petstore =
     JObj [(''openapi'', JStr ''3.0.0''),
           (''paths'', JObj [(''/pets'', JObj [
              (''get'', JObj [(''summary'', JStr ''List pets''), (''tags'', JArr [JStr ''pets''])]),
              (''post'', JObj [(''operationId'', JStr ''createPet'')])])]),
           (''components'', JObj [(''schemas'', JObj [
              (''Pet'', JObj [(''type'', JStr ''object''),
                 (''properties'', JObj [(''owner'',
                    JObj [(''$ref'', JStr ''#/components/schemas/Owner'')])])]),
              (''Owner'', JObj [(''type'', JStr ''object''),
                 (''properties'', JObj [(''pet'',
                    JObj [(''$ref'', JStr ''#/components/schemas/Pet'')])])]),
              (''Gone'', JNull)])])]"

text \<open>The cache after a fetch of that document at time 0, and a \<open>RegExp\<close> for searches
  that give no pattern.\<close>

definition petstore_cache :: "CachedSpec option" where
  "petstore_cache = (case build_cache 0 petstore of Inl e \<Rightarrow> None | Inr c \<Rightarrow> Some c)"

definition no_RegExp :: RegExp where
  "no_RegExp pattern = None"

text \<open>The entries of the two indexes of that document.\<close>

definition get_pets :: EndpointInfo where
  "get_pets =
     \<lparr>path = ''/pets'', method = ''GET'', summary = JStr ''List pets'',
      description = JUndefined, tags = JArr [JStr ''pets''], operationId = JUndefined\<rparr>"

definition post_pets :: EndpointInfo where
  "post_pets =
     \<lparr>path = ''/pets'', method = ''POST'', summary = JUndefined, description = JUndefined,
      tags = JUndefined, operationId = JStr ''createPet''\<rparr>"

definition pet_info :: SchemaInfo where
  "pet_info =
     \<lparr>name = ''Pet'', schema_type = JStr ''object'', properties = Some [''owner''],
      schema_description = JUndefined\<rparr>"

definition owner_info :: SchemaInfo where
  "owner_info =
     \<lparr>name = ''Owner'', schema_type = JStr ''object'', properties = Some [''pet''],
      schema_description = JUndefined\<rparr>"

definition pet_ref :: json where
  "pet_ref = JObj [(''$ref'', JStr ''#/components/schemas/Pet'')]"

section \<open>Termination of \<^verbatim>\<open>resolveAllRefs\<close>\<close>

lemma finite_refs_of: "finite (refs_of v)"
  by (induction v) (auto split: option.splits)

lemma refs_of_property: "refs_of (property v k) \<subseteq> refs_of v"
proof (cases v)
  case (JArr xs)
  have "i < length xs \<Longrightarrow> refs_of (xs ! i) \<subseteq> (\<Union>x \<in> set xs. refs_of x)" for i
    using nth_mem [of i xs] by blast
  with JArr show ?thesis by (simp split: option.splits)
next
  case (JObj es)
  show ?thesis
  proof (cases "map_of es k")
    case None
    with JObj show ?thesis by simp
  next
    case (Some w)
    then have "(k, w) \<in> set es" by (rule map_of_SomeD)
    with JObj Some show ?thesis by force
  qed
qed (simp_all split: option.splits)

lemma refs_of_unresolvable: "refs_of (unresolvable ref) = {}"
  by (simp add: unresolvable_def ref_of_def)

lemma refs_of_walk: "walk ref cur segs = Inr v \<Longrightarrow> refs_of v \<subseteq> refs_of cur"
proof (induction segs arbitrary: cur)
  case Nil
  then show ?case by simp
next
  case (Cons segment segs)
  show ?case
  proof (cases "decode_segment segment")
    case None
    with Cons.prems show ?thesis by simp
  next
    case (Some k)
    show ?thesis
    proof (cases "truthy cur \<and> is_object cur \<and> has_key cur k")
      case True
      with Cons.prems Some have "walk ref (property cur k) segs = Inr v" by simp
      then have "refs_of v \<subseteq> refs_of (property cur k)" by (rule Cons.IH)
      with refs_of_property show ?thesis by blast
    next
      case False
      with Cons.prems Some have "v = unresolvable ref" by auto
      then show ?thesis by (simp add: refs_of_unresolvable)
    qed
  qed
qed

lemma refs_of_resolveRef: "resolveRef doc ref = Inr v \<Longrightarrow> refs_of v \<subseteq> refs_of doc"
  by (auto simp: resolveRef_def refs_of_unresolvable split: if_splits dest: refs_of_walk)

lemma visited_restored_dom:
  "resolveAllRefs_resolve_items_resolve_entries_dom (Inl (doc, vis, obj, m, d)) \<Longrightarrow>
     resolveAllRefs doc vis obj m d = (Inr r, vis') \<longrightarrow> vis' = vis"
  "resolveAllRefs_resolve_items_resolve_entries_dom (Inr (Inl (doc, vis, rest, m, d))) \<Longrightarrow>
     resolve_items doc vis rest m d = (Inr rs, vis') \<longrightarrow> vis' = vis"
  "resolveAllRefs_resolve_items_resolve_entries_dom (Inr (Inr (doc, vis, entries, m, d))) \<Longrightarrow>
     resolve_entries doc vis entries m d = (Inr es, vis') \<longrightarrow> vis' = vis"
proof (induct arbitrary: r vis' and rs vis' and es vis'
       rule: resolveAllRefs_resolve_items_resolve_entries.pinduct)
  case (1 doc visitedRefs obj maxDepth currentDepth)
  note dom = "1.hyps"(1)
  show ?case
  proof (cases "maxDepth \<le> enat currentDepth")
    case True
    with dom show ?thesis by (simp add: resolveAllRefs.psimps)
  next
    case deeper: False
    show ?thesis
    proof (cases obj)
      case (JArr rest)
      from "1.hyps"(2) [OF deeper JArr] dom deeper JArr show ?thesis
        by (auto simp: resolveAllRefs.psimps split: sum.splits prod.splits)
    next
      case (JObj typedObj)
      show ?thesis
      proof (cases "ref_of typedObj")
        case None
        from "1.hyps"(3) [OF deeper JObj None] dom deeper JObj None show ?thesis
          by (auto simp: resolveAllRefs.psimps split: sum.splits prod.splits)
      next
        case (Some ref)
        show ?thesis
        proof (cases "ref \<in> visitedRefs")
          case True
          with dom deeper JObj Some show ?thesis by (simp add: resolveAllRefs.psimps)
        next
          case fresh: False
          show ?thesis
          proof (cases "resolveRef doc ref")
            case (Inl e)
            with dom deeper JObj Some fresh show ?thesis by (simp add: resolveAllRefs.psimps)
          next
            case (Inr resolved)
            from "1.hyps"(4) [OF deeper JObj Some fresh Inr] dom deeper JObj Some fresh Inr
            show ?thesis
              by (auto simp: resolveAllRefs.psimps split: sum.splits prod.splits)
          qed
        qed
      qed
    qed (use dom deeper in \<open>simp_all add: resolveAllRefs.psimps\<close>)
  qed
next
  case (2 doc visitedRefs maxDepth currentDepth)
  then show ?case by (simp add: resolve_items.psimps)
next
  case (3 doc visitedRefs item rest maxDepth currentDepth)
  note dom = "3.hyps"(1)
  show ?case
  proof
    assume res: "resolve_items doc visitedRefs (item # rest) maxDepth currentDepth = (Inr rs, vis')"
    obtain x y where xy: "resolveAllRefs doc visitedRefs item maxDepth currentDepth = (x, y)"
      by (cases "resolveAllRefs doc visitedRefs item maxDepth currentDepth")
    from res dom xy obtain b where b: "x = Inr b"
      by (cases x) (simp_all add: resolve_items.psimps)
    from "3.hyps"(2) xy b have y: "y = visitedRefs" by simp
    obtain x' y' where xy': "resolve_items doc y rest maxDepth currentDepth = (x', y')"
      by (cases "resolve_items doc y rest maxDepth currentDepth")
    from res dom xy b xy' obtain bs where bs: "x' = Inr bs" and v: "vis' = y'"
      by (cases x') (simp_all add: resolve_items.psimps)
    from "3.hyps"(3) [OF xy [symmetric] b] xy' bs have "y' = y" by simp
    with y v show "vis' = visitedRefs" by simp
  qed
next
  case (4 doc visitedRefs maxDepth currentDepth)
  then show ?case by (simp add: resolve_entries.psimps)
next
  case (5 doc visitedRefs key v entries maxDepth currentDepth)
  note dom = "5.hyps"(1)
  show ?case
  proof
    assume res: "resolve_entries doc visitedRefs ((key, v) # entries) maxDepth currentDepth = (Inr es, vis')"
    obtain x y where xy: "resolveAllRefs doc visitedRefs v maxDepth currentDepth = (x, y)"
      by (cases "resolveAllRefs doc visitedRefs v maxDepth currentDepth")
    from res dom xy obtain b where b: "x = Inr b"
      by (cases x) (simp_all add: resolve_entries.psimps)
    from "5.hyps"(2) xy b have y: "y = visitedRefs" by simp
    obtain x' y' where xy': "resolve_entries doc y entries maxDepth currentDepth = (x', y')"
      by (cases "resolve_entries doc y entries maxDepth currentDepth")
    from res dom xy b xy' obtain bs where bs: "x' = Inr bs" and v: "vis' = y'"
      by (cases x') (simp_all add: resolve_entries.psimps)
    from "5.hyps"(3) [OF xy [symmetric] b] xy' bs have "y' = y" by simp
    with y v show "vis' = visitedRefs" by simp
  qed
qed


lemma card_refs_mono:
  "A \<subseteq> refs_of doc \<union> refs_of v \<Longrightarrow> card (A - vis) \<le> card ((refs_of doc \<union> refs_of v) - vis)"
  by (rule card_mono) (auto simp: finite_refs_of)

lemma lex_le_less:
  "a \<le> (a'::nat) \<Longrightarrow> b < (b'::nat) \<Longrightarrow> ((a, b), (a', b')) \<in> less_than <*lex*> less_than"
  by auto

lemma card_refs_hop:
  assumes "ref \<in> refs_of obj" "ref \<notin> vis" "refs_of b \<subseteq> refs_of doc"
  shows "card ((refs_of doc \<union> refs_of b) - insert ref vis) < card ((refs_of doc \<union> refs_of obj) - vis)"
proof (rule psubset_card_mono)
  show "finite ((refs_of doc \<union> refs_of obj) - vis)" by (simp add: finite_refs_of)
  from assms show "(refs_of doc \<union> refs_of b) - insert ref vis \<subset> (refs_of doc \<union> refs_of obj) - vis"
    by blast
qed

lemma resolve_dom_total: "All resolveAllRefs_resolve_items_resolve_entries_dom"
proof (rule "resolveAllRefs_resolve_items_resolve_entries.termination"
    [of "inv_image (less_than <*lex*> less_than) resolve_measure"])
  show "wf (inv_image (less_than <*lex*> less_than) resolve_measure)"
    by (intro wf_inv_image wf_lex_prod wf_less_than)
next
  fix doc :: json and visitedRefs :: "string set" and obj maxDepth and currentDepth :: nat and x6
  assume "obj = JArr x6"
  then show "(Inr (Inl (doc, visitedRefs, x6, maxDepth, currentDepth)),
        Inl (doc, visitedRefs, obj, maxDepth, currentDepth))
       \<in> inv_image (less_than <*lex*> less_than) resolve_measure"
    by simp
next
  fix doc :: json and visitedRefs :: "string set" and obj maxDepth and currentDepth :: nat and x7
  assume obj: "obj = JObj x7"
  then have "card ((refs_of doc \<union> refs_of (JArr (map snd x7))) - visitedRefs)
      \<le> card ((refs_of doc \<union> refs_of obj) - visitedRefs)"
    by (intro card_refs_mono) auto
  with obj show "(Inr (Inr (doc, visitedRefs, x7, maxDepth, currentDepth)),
        Inl (doc, visitedRefs, obj, maxDepth, currentDepth))
       \<in> inv_image (less_than <*lex*> less_than) resolve_measure"
    by (auto intro!: lex_le_less)
next
  fix doc :: json and visitedRefs :: "string set" and obj maxDepth and currentDepth :: nat
    and x7 x2 b
  assume "obj = JObj x7" "ref_of x7 = Some x2" "x2 \<notin> visitedRefs" "resolveRef doc x2 = Inr b"
  then have "card ((refs_of doc \<union> refs_of b) - insert x2 visitedRefs)
      < card ((refs_of doc \<union> refs_of obj) - visitedRefs)"
    by (intro card_refs_hop refs_of_resolveRef) simp_all
  then show "(Inl (doc, insert x2 visitedRefs, b, maxDepth, currentDepth + 1),
        Inl (doc, visitedRefs, obj, maxDepth, currentDepth))
       \<in> inv_image (less_than <*lex*> less_than) resolve_measure"
    by simp
next
  fix doc :: json and visitedRefs :: "string set" and item rest maxDepth and currentDepth :: nat
  have "card ((refs_of doc \<union> refs_of item) - visitedRefs)
      \<le> card ((refs_of doc \<union> refs_of (JArr (item # rest))) - visitedRefs)"
    by (rule card_refs_mono) auto
  then show "(Inl (doc, visitedRefs, item, maxDepth, currentDepth),
     Inr (Inl (doc, visitedRefs, item # rest, maxDepth, currentDepth)))
    \<in> inv_image (less_than <*lex*> less_than) resolve_measure"
    by (auto intro!: lex_le_less)
next
  fix doc :: json and visitedRefs :: "string set" and item rest maxDepth
    and currentDepth :: nat and x y b
  assume "(x, y) = resolveAllRefs doc visitedRefs item maxDepth currentDepth" "x = Inr b"
    "resolveAllRefs_resolve_items_resolve_entries_dom
      (Inl (doc, visitedRefs, item, maxDepth, currentDepth))"
  with visited_restored_dom(1) [of doc visitedRefs item maxDepth currentDepth b y]
  have y: "y = visitedRefs" by simp
  have "card ((refs_of doc \<union> refs_of (JArr rest)) - visitedRefs)
      \<le> card ((refs_of doc \<union> refs_of (JArr (item # rest))) - visitedRefs)"
    by (rule card_refs_mono) auto
  with y show "(Inr (Inl (doc, y, rest, maxDepth, currentDepth)),
        Inr (Inl (doc, visitedRefs, item # rest, maxDepth, currentDepth)))
       \<in> inv_image (less_than <*lex*> less_than) resolve_measure"
    by (auto intro!: lex_le_less)
next
  fix doc :: json and visitedRefs :: "string set" and key :: string and v entries maxDepth
    and currentDepth :: nat
  have "card ((refs_of doc \<union> refs_of v) - visitedRefs)
      \<le> card ((refs_of doc \<union> refs_of (JArr (map snd ((key, v) # entries)))) - visitedRefs)"
    by (rule card_refs_mono) auto
  then show "(Inl (doc, visitedRefs, v, maxDepth, currentDepth),
     Inr (Inr (doc, visitedRefs, (key, v) # entries, maxDepth, currentDepth)))
    \<in> inv_image (less_than <*lex*> less_than) resolve_measure"
    by (auto intro!: lex_le_less)
next
  fix doc :: json and visitedRefs :: "string set" and key :: string and v entries maxDepth
    and currentDepth :: nat and x y b
  assume "(x, y) = resolveAllRefs doc visitedRefs v maxDepth currentDepth" "x = Inr b"
    "resolveAllRefs_resolve_items_resolve_entries_dom
      (Inl (doc, visitedRefs, v, maxDepth, currentDepth))"
  with visited_restored_dom(1) [of doc visitedRefs v maxDepth currentDepth b y]
  have y: "y = visitedRefs" by simp
  have "card ((refs_of doc \<union> refs_of (JArr (map snd entries))) - visitedRefs)
      \<le> card ((refs_of doc \<union> refs_of (JArr (map snd ((key, v) # entries)))) - visitedRefs)"
    by (rule card_refs_mono) auto
  with y show "(Inr (Inr (doc, y, entries, maxDepth, currentDepth)),
        Inr (Inr (doc, visitedRefs, (key, v) # entries, maxDepth, currentDepth)))
       \<in> inv_image (less_than <*lex*> less_than) resolve_measure"
    by (auto intro!: lex_le_less)
qed

termination resolveAllRefs
  using resolve_dom_total by blast

declare resolveAllRefs.simps [simp del]

lemma visited_restored:
  "resolveAllRefs doc vis obj m d = (Inr r, vis') \<Longrightarrow> vis' = vis"
  using visited_restored_dom(1) [of doc vis obj m d r vis'] resolve_dom_total by blast

lemma visited_restored_items:
  "resolve_items doc vis xs m d = (Inr rs, vis') \<Longrightarrow> vis' = vis"
  using visited_restored_dom(2) [of doc vis xs m d rs vis'] resolve_dom_total by blast

lemma visited_restored_entries:
  "resolve_entries doc vis es m d = (Inr rs, vis') \<Longrightarrow> vis' = vis"
  using visited_restored_dom(3) [of doc vis es m d rs vis'] resolve_dom_total by blast

section \<open>Values without references\<close>





section \<open>Pointers\<close>










section \<open>Depth limit and cycles\<close>

lemma fst_case_sum_pair:
  "fst (case p of (Inl e, s) \<Rightarrow> (Inl e, s) | (Inr r, s) \<Rightarrow> (Inr (f r), g s)) = map_sum id f (fst p)"
  by (cases p) (auto split: sum.splits)

lemma fst_case_sum_pair_same:
  "fst (case p of (Inl e, s) \<Rightarrow> (Inl e, s) | (Inr r, s) \<Rightarrow> (Inr r, g s)) = fst p"
  by (cases p) (auto split: sum.splits)

lemma resolve_is_expand:
  "m = enat k \<Longrightarrow> fst (resolveAllRefs doc vis obj m d) = expand doc vis (k - d) obj"
  "m = enat k \<Longrightarrow> fst (resolve_items doc vis xs m d) = expand_items doc vis (k - d) xs"
  "m = enat k \<Longrightarrow> fst (resolve_entries doc vis es m d) = expand_entries doc vis (k - d) es"
proof (induct doc vis obj m d and doc vis xs m d and doc vis es m d
       arbitrary: k and k and k
       rule: resolveAllRefs_resolve_items_resolve_entries.induct)
  case (1 doc vis obj m d)
  note m = \<open>m = enat k\<close>
  show ?case
  proof (cases "m \<le> enat d")
    case True
    with m have "k - d = 0" by simp
    with True show ?thesis by (simp add: resolveAllRefs.simps)
  next
    case deeper: False
    with m obtain n where n: "k - d = Suc n" and n': "k - (d + 1) = n"
      by (cases "k - d") auto
    show ?thesis
    proof (cases obj)
      case (JArr xs)
      from "1.hyps"(1) [OF deeper JArr m]
      have "fst (resolve_items doc vis xs m d) = expand_items doc vis (k - d) xs" .
      with deeper JArr n show ?thesis
        by (subst resolveAllRefs.simps) (simp add: fst_case_sum_pair [where g = "\<lambda>s. s"])
    next
      case (JObj es)
      show ?thesis
      proof (cases "ref_of es")
        case None
        from "1.hyps"(2) [OF deeper JObj None m]
        have "fst (resolve_entries doc vis es m d) = expand_entries doc vis (k - d) es" .
        with deeper JObj None n show ?thesis
          by (subst resolveAllRefs.simps) (simp add: fst_case_sum_pair [where g = "\<lambda>s. s"])
      next
        case (Some ref)
        show ?thesis
        proof (cases "ref \<in> vis")
          case True
          with deeper JObj Some n show ?thesis by (simp add: resolveAllRefs.simps)
        next
          case fresh: False
          show ?thesis
          proof (cases "resolveRef doc ref")
            case (Inl e)
            with deeper JObj Some fresh n show ?thesis by (simp add: resolveAllRefs.simps)
          next
            case (Inr target)
            from "1.hyps"(3) [OF deeper JObj Some fresh Inr m] n'
            have "fst (resolveAllRefs doc (insert ref vis) target m (d + 1)) =
                  expand doc (insert ref vis) n target" by simp
            with deeper JObj Some fresh Inr n show ?thesis
              by (subst resolveAllRefs.simps) (simp add: fst_case_sum_pair_same)
          qed
        qed
      qed
    qed (use deeper n in \<open>simp_all add: resolveAllRefs.simps\<close>)
  qed
next
  case (2 doc vis m d)
  show ?case by simp
next
  case (3 doc vis x xs m d)
  note m = \<open>m = enat k\<close>
  from "3.hyps"(1) [OF m]
  have hd: "fst (resolveAllRefs doc vis x m d) = expand doc vis (k - d) x" .
  obtain r s where rs: "resolveAllRefs doc vis x m d = (r, s)"
    by (cases "resolveAllRefs doc vis x m d")
  with hd have ex: "expand doc vis (k - d) x = r" by simp
  show ?case
  proof (cases r)
    case (Inl e)
    with rs ex show ?thesis by simp
  next
    case (Inr y)
    with rs have s: "s = vis" by (auto dest: visited_restored)
    from "3.hyps"(2) [OF rs [symmetric] Inr m] s
    have "fst (resolve_items doc vis xs m d) = expand_items doc vis (k - d) xs" by simp
    with rs Inr ex s show ?thesis
      by (simp add: fst_case_sum_pair [where g = "\<lambda>s. s"])
  qed
next
  case (4 doc vis m d)
  show ?case by simp
next
  case (5 doc vis key v es m d)
  note m = \<open>m = enat k\<close>
  from "5.hyps"(1) [OF m]
  have hd: "fst (resolveAllRefs doc vis v m d) = expand doc vis (k - d) v" .
  obtain r s where rs: "resolveAllRefs doc vis v m d = (r, s)"
    by (cases "resolveAllRefs doc vis v m d")
  with hd have ex: "expand doc vis (k - d) v = r" by simp
  show ?case
  proof (cases r)
    case (Inl e)
    with rs ex show ?thesis by simp
  next
    case (Inr y)
    with rs have s: "s = vis" by (auto dest: visited_restored)
    from "5.hyps"(2) [OF rs [symmetric] Inr m] s
    have "fst (resolve_entries doc vis es m d) = expand_entries doc vis (k - d) es" by simp
    with rs Inr ex s show ?thesis
      by (simp add: fst_case_sum_pair [where g = "\<lambda>s. s"])
  qed
qed

text \<open>
  Claim C1.  With an integral depth limit \<open>k\<close>, a call at depth \<open>d\<close> computes the resolution
  with a budget of \<open>k - d\<close> nested reference hops: only the substitution of a reference
  spends one hop, sequences and plain keyed containers pass the budget on unchanged, and with
  no hop left the raw value comes back.  In particular a call at a depth \<open>d \<ge> k\<close> returns
  its argument and leaves the visited set alone.
\<close>

theorem resolveAllRefs_hop_budget:
  "fst (resolveAllRefs doc vis v (enat k) d) = expand doc vis (k - d) v \<and>
   (k \<le> d \<longrightarrow> resolveAllRefs doc vis v (enat k) d = (Inr v, vis))"
proof
  show "fst (resolveAllRefs doc vis v (enat k) d) = expand doc vis (k - d) v"
    by (rule resolve_is_expand(1)) simp
  show "k \<le> d \<longrightarrow> resolveAllRefs doc vis v (enat k) d = (Inr v, vis)"
    by (subst resolveAllRefs.simps) simp
qed

theorem resolveAllRefs_hop_budget_witness:
  "(1::nat) \<le> 1 \<and>
   resolveAllRefs petstore {} pet_ref (enat 1) 1 = (Inr pet_ref, {}) \<and>
   fst (resolveAllRefs petstore {} pet_ref (enat 1) 0) =
     Inr (JObj [(''type'', JStr ''object''),
                (''properties'', JObj [(''owner'',
                   JObj [(''$ref'', JStr ''#/components/schemas/Owner'')])])])"
  using resolveAllRefs_hop_budget [of petstore "{}" pet_ref 1 1]
    resolveAllRefs_hop_budget [of petstore "{}" pet_ref 1 0]
  by (simp add: petstore_def pet_ref_def ref_of_def resolveRef_def decode_segment_def)

text \<open>
  Claim C2, as stated, fails for a small depth limit: with \<open>maxDepth = 2\<close> the resolution of
  the reference to \<^verbatim>\<open>Pet\<close> (whose \<^verbatim>\<open>owner\<close> refers to \<^verbatim>\<open>Owner\<close>, whose \<^verbatim>\<open>pet\<close> refers back to
  \<^verbatim>\<open>Pet\<close>) returns the \<^verbatim>\<open>Owner\<close> schema raw at depth 2; the pointer to \<^verbatim>\<open>Pet\<close> is met again
  there while it is on the active path, and the node stays a \<^verbatim>\<open>$ref\<close> node, not a circular
  marker.
\<close>

theorem cycle_at_depth_limit_counterexample:
  "resolveAllRefs petstore {} pet_ref 2 0 =
     (Inr (JObj [(''type'', JStr ''object''),
        (''properties'', JObj [(''owner'', JObj [(''type'', JStr ''object''),
           (''properties'', JObj [(''pet'',
              JObj [(''$ref'', JStr ''#/components/schemas/Pet'')])])])])]), {})"
  by (simp add: resolveAllRefs.simps petstore_def pet_ref_def ref_of_def resolveRef_def
      decode_segment_def)

text \<open>
  Claim C2, amended.  For every document, value, set of visited pointers and depth limit
  (also an unbounded one) the recursion of \<open>resolveAllRefs\<close> is well-founded: every argument
  is in the domain on which the function terminates.  A reference node that is examined at a
  depth below the limit while its pointer is in the visited set gives the circular marker
  (at or beyond the limit the node is returned raw).  Whenever a call returns, the visited set
  is what it was when the call began, so every pointer added on the way has been removed.
\<close>

theorem resolveAllRefs_cycle_detection:
  "resolveAllRefs_resolve_items_resolve_entries_dom (Inl (doc, vis, v, m, d)) \<and>
   (\<not> m \<le> enat d \<and> ref_of es = Some ref \<and> ref \<in> vis
      \<longrightarrow> resolveAllRefs doc vis (JObj es) m d = (Inr (circular ref), vis)) \<and>
   (resolveAllRefs doc vis v m d = (Inr r, vis') \<longrightarrow> vis' = vis)"
proof (intro conjI impI)
  show "resolveAllRefs_resolve_items_resolve_entries_dom (Inl (doc, vis, v, m, d))"
    using resolve_dom_total by blast
next
  assume "\<not> m \<le> enat d \<and> ref_of es = Some ref \<and> ref \<in> vis"
  then show "resolveAllRefs doc vis (JObj es) m d = (Inr (circular ref), vis)"
    by (subst resolveAllRefs.simps) simp
next
  assume "resolveAllRefs doc vis v m d = (Inr r, vis')"
  then show "vis' = vis" by (rule visited_restored)
qed

theorem resolveAllRefs_cycle_detection_witness:
  "resolveAllRefs_resolve_items_resolve_entries_dom (Inl (petstore, {}, pet_ref, \<infinity>, 0)) \<and>
   resolveAllRefs petstore {''#/components/schemas/Pet'', ''#/components/schemas/Owner''}
      pet_ref \<infinity> 2 =
     (Inr (circular ''#/components/schemas/Pet''),
      {''#/components/schemas/Pet'', ''#/components/schemas/Owner''}) \<and>
   resolveAllRefs petstore {} pet_ref \<infinity> 0 =
     (Inr (JObj [(''type'', JStr ''object''),
        (''properties'', JObj [(''owner'', JObj [(''type'', JStr ''object''),
           (''properties'', JObj [(''pet'', circular ''#/components/schemas/Pet'')])])])]), {})"
proof -
  have full: "fst (resolveAllRefs petstore {} pet_ref \<infinity> 0) =
     Inr (JObj [(''type'', JStr ''object''),
        (''properties'', JObj [(''owner'', JObj [(''type'', JStr ''object''),
           (''properties'', JObj [(''pet'', circular ''#/components/schemas/Pet'')])])])])"
    by (simp add: resolveAllRefs.simps petstore_def pet_ref_def ref_of_def resolveRef_def
        decode_segment_def)
  obtain r s where rs: "resolveAllRefs petstore {} pet_ref \<infinity> 0 = (r, s)"
    by (cases "resolveAllRefs petstore {} pet_ref \<infinity> 0")
  note inst = resolveAllRefs_cycle_detection
    [where doc = petstore and vis = "{}" and v = pet_ref and m = "\<infinity>" and d = 0 and vis' = s]
  from full rs inst have "s = {}" by simp
  with full rs have third: "resolveAllRefs petstore {} pet_ref \<infinity> 0 =
     (Inr (JObj [(''type'', JStr ''object''),
        (''properties'', JObj [(''owner'', JObj [(''type'', JStr ''object''),
           (''properties'', JObj [(''pet'', circular ''#/components/schemas/Pet'')])])])]), {})"
    by simp
  from resolveAllRefs_cycle_detection
    [where doc = petstore
       and vis = "{''#/components/schemas/Pet'', ''#/components/schemas/Owner''}"
       and m = "\<infinity>" and d = 2 and ref = "''#/components/schemas/Pet''"
       and es = "[(''$ref'', JStr ''#/components/schemas/Pet'')]"]
  have second: "resolveAllRefs petstore
      {''#/components/schemas/Pet'', ''#/components/schemas/Owner''} pet_ref \<infinity> 2 =
     (Inr (circular ''#/components/schemas/Pet''),
      {''#/components/schemas/Pet'', ''#/components/schemas/Owner''})"
    by (simp add: pet_ref_def ref_of_def)
  from inst second third show ?thesis by blast
qed

section \<open>Pagination\<close>

lemma take_min_length: "take (min n (length ys)) ys = take n ys"
  by (cases "n \<le> length ys") (simp_all add: min_def)

lemma slice_window:
  assumes a: "0 \<le> a" and l: "0 < l"
  shows "slice xs a (a + l) = take (nat l) (drop (nat a) xs)"
proof (cases "a \<le> int (length xs)")
  case True
  with a l have "nat (min (a + l) (int (length xs)) - a) = min (nat l) (length (drop (nat a) xs))"
    by (auto simp: min_def)
  with a l True show ?thesis
    by (simp add: slice_def Let_def min_absorb1 take_min_length del: length_drop)
next
  case False
  with a l show ?thesis by (simp add: slice_def Let_def)
qed


lemma upper_methods:
  "toUpperCase ''get'' = ''GET''" "toUpperCase ''post'' = ''POST''"
  "toUpperCase ''put'' = ''PUT''" "toUpperCase ''patch'' = ''PATCH''"
  "toUpperCase ''delete'' = ''DELETE''" "toUpperCase ''options'' = ''OPTIONS''"
  "toUpperCase ''head'' = ''HEAD''" "toUpperCase ''trace'' = ''TRACE''"
  by code_simp+

lemmas petstore_eval =
  petstore_cache_def build_cache_def buildEndpointIndex_def buildSchemaIndex_def
  components_schemas_def nullish_def petstore_def http_methods_def endpoint_entry_def
  keys_of_def upper_methods get_pets_def post_pets_def pet_info_def owner_info_def

lemmas search_eval =
  searchEndpoints_def searchSchemas_def filter_endpoints_def filter_schemas_def
  filter_pathPattern_def filter_method_def filter_tags_def filter_description_def
  filter_namePattern_def filter_propertyName_def given_def or_default_def slice_def
  SearchEndpointsTool_execute_def SearchSchemasTool_execute_def paginate_def

text \<open>
  Claim C5, as stated, fails for the limit 0: on an index of two endpoints a search with
  limit 0 and offset 0 returns both of them, while the slice from 0 to 0 of the filtered
  sequence is empty.
\<close>

theorem limit_zero_page_counterexample:
  "searchEndpoints no_RegExp petstore_cache None None None None (Some 0) (Some 0) =
     Inr ([get_pets, post_pets], 2) \<and>
   slice [get_pets, post_pets] 0 (0 + 0) = []"
  by (simp add: petstore_eval search_eval)

text \<open>
  Claim C5, amended.  Let \<open>offset'\<close> be the offset, or 0 when it is absent or 0, and
  \<open>limit'\<close> the limit, or 20 when it is absent or 0.  Whenever a search tool returns, the
  cache holds an entry, all filters have been applied to its index before slicing, the page
  is \<^verbatim>\<open>slice(offset', offset' + limit')\<close> of the filtered sequence (its elements at the
  positions from \<open>offset'\<close> up to \<open>offset' + limit'\<close> when \<open>offset'\<close> is not negative and
  \<open>limit'\<close> is positive), \<open>total\<close> is the length of the filtered sequence, and \<open>hasMore\<close>
  is \<open>offset' + length page < total\<close>.
\<close>

theorem search_pagination:
  "(SearchEndpointsTool_execute R c pp m ts d lmt ofs = Inr res \<longrightarrow>
     (\<exists>cached results. c = Some cached \<and>
        filter_endpoints R pp m ts d (endpointIndex cached) = Inr results \<and>
        items res = slice results (or_default ofs 0) (or_default ofs 0 + or_default lmt 20) \<and>
        total res = length results \<and>
        hasMore res = (or_default ofs 0 + int (length (items res)) < int (total res)) \<and>
        (0 \<le> or_default ofs 0 \<and> 0 < or_default lmt 20 \<longrightarrow>
           items res = take (nat (or_default lmt 20)) (drop (nat (or_default ofs 0)) results)))) \<and>
   (SearchSchemasTool_execute R c np pn lmt ofs = Inr sres \<longrightarrow>
     (\<exists>cached results. c = Some cached \<and>
        filter_schemas R np pn (schemaIndex cached) = Inr results \<and>
        items sres = slice results (or_default ofs 0) (or_default ofs 0 + or_default lmt 20) \<and>
        total sres = length results \<and>
        hasMore sres = (or_default ofs 0 + int (length (items sres)) < int (total sres)) \<and>
        (0 \<le> or_default ofs 0 \<and> 0 < or_default lmt 20 \<longrightarrow>
           items sres =
             take (nat (or_default lmt 20)) (drop (nat (or_default ofs 0)) results))))"
  by (auto simp: SearchEndpointsTool_execute_def SearchSchemasTool_execute_def
      searchEndpoints_def searchSchemas_def paginate_def slice_window
      split: option.splits sum.splits)

theorem search_pagination_witness:
  "SearchEndpointsTool_execute no_RegExp petstore_cache None None None None (Some 1) (Some 1) =
     Inr \<lparr>items = [post_pets], total = 2, limit = 1, offset = 1, hasMore = False\<rparr> \<and>
   SearchSchemasTool_execute no_RegExp petstore_cache None None (Some 1) None =
     Inr \<lparr>items = [pet_info], total = 2, limit = 1, offset = 0, hasMore = True\<rparr> \<and>
   (\<exists>cached. petstore_cache = Some cached \<and>
      endpointIndex cached = [get_pets, post_pets] \<and> schemaIndex cached = [pet_info, owner_info])"
  using search_pagination [of no_RegExp petstore_cache None None None None "Some 1" "Some 1"
      "\<lparr>items = [post_pets], total = 2, limit = 1, offset = 1, hasMore = False\<rparr>"
      None None "\<lparr>items = [pet_info], total = 2, limit = 1, offset = 0, hasMore = True\<rparr>"]
  by (simp add: petstore_eval search_eval)



section \<open>The endpoint index\<close>

lemma methods_loop_eq:
  "methods_loop p item ms acc =
     acc @ map (endpoint_entry p item) (filter (\<lambda>m. truthy (property item m)) ms)"
  by (induction ms arbitrary: acc) simp_all

lemma paths_loop_eq:
  "paths_loop es acc =
     acc @ concat (map (\<lambda>(p, item). map (endpoint_entry p item)
                      (filter (\<lambda>m. truthy item \<and> truthy (property item m)) http_methods)) es)"
proof (induction es arbitrary: acc)
  case Nil
  show ?case by simp
next
  case (Cons e es)
  obtain p item where e: "e = (p, item)" by (cases e)
  show ?case by (simp add: e Cons.IH methods_loop_eq)
qed

lemma upper_inj: "inj_on toUpperCase (set http_methods)"
  unfolding http_methods_def by (simp add: upper_methods)

lemma distinct_methods: "distinct http_methods"
  by (simp add: http_methods_def)

lemma endpoint_entry_fields:
  "path (endpoint_entry p item m) = p"
  "method (endpoint_entry p item m) = toUpperCase m"
  "summary (endpoint_entry p item m) = property (property item m) ''summary''"
  "description (endpoint_entry p item m) = property (property item m) ''description''"
  "tags (endpoint_entry p item m) = property (property item m) ''tags''"
  "operationId (endpoint_entry p item m) = property (property item m) ''operationId''"
  by (simp_all add: endpoint_entry_def Let_def)

lemma verb_pairs_simps:
  "verb_pairs [] = []"
  "verb_pairs ((p, item) # es) =
     map (\<lambda>m. (p, toUpperCase m))
       (filter (\<lambda>m. truthy item \<and> truthy (property item m)) http_methods) @ verb_pairs es"
  by (simp_all add: verb_pairs_def)

lemma index_pairs:
  "map (\<lambda>e. (path e, method e))
     (concat (map (\<lambda>(p, item). map (endpoint_entry p item)
                      (filter (\<lambda>m. truthy item \<and> truthy (property item m)) http_methods)) es))
   = verb_pairs es"
  by (induction es) (auto simp: verb_pairs_simps endpoint_entry_fields)

lemma fst_verb_pairs: "x \<in> set (verb_pairs es) \<Longrightarrow> fst x \<in> fst ` set es"
proof (induction es)
  case Nil
  then show ?case by (simp add: verb_pairs_simps)
next
  case (Cons e es)
  obtain p item where e: "e = (p, item)" by (cases e)
  from Cons.prems consider "fst x = p" | "x \<in> set (verb_pairs es)"
    unfolding e verb_pairs_simps by auto
  then show ?case
  proof cases
    case 1
    then show ?thesis by (simp add: e)
  next
    case 2
    then show ?thesis using Cons.IH by simp
  qed
qed

lemma distinct_verb_pairs: "distinct (map fst es) \<Longrightarrow> distinct (verb_pairs es)"
proof (induction es)
  case Nil
  show ?case by (simp add: verb_pairs_simps)
next
  case (Cons e es)
  obtain p item where e: "e = (p, item)" by (cases e)
  let ?ms = "filter (\<lambda>m. truthy item \<and> truthy (property item m)) http_methods"
  have "distinct (map toUpperCase ?ms)"
    by (intro iffD2 [OF distinct_map] conjI distinct_filter distinct_methods
          inj_on_subset [OF upper_inj]) auto
  then have hd: "distinct (map (\<lambda>m. (p, toUpperCase m)) ?ms)"
    by (simp add: distinct_map inj_on_def)
  from Cons.prems e have "p \<notin> fst ` set es" by simp
  with fst_verb_pairs [of _ es] have "p \<notin> fst ` set (verb_pairs es)" by blast
  then have disj: "set (map (\<lambda>m. (p, toUpperCase m)) ?ms) \<inter> set (verb_pairs es) = {}"
    by force
  from Cons.prems have tl: "distinct (verb_pairs es)" by (intro Cons.IH) simp
  from hd tl disj show ?case
    unfolding e verb_pairs_simps distinct_append by blast
qed


lemma entries_of_falsy: "\<not> truthy v \<Longrightarrow> entries_of v = []"
  by (cases v) simp_all

text \<open>
  Claim C7.  For a document (a value on which \<^verbatim>\<open>spec.paths\<close> can be read), the index is
  the list of the entries built from each pair of a path and a verb whose operation is
  present (truthy), paths in the order of the paths object and, within a path, verbs in the
  order GET, POST, PUT, PATCH, DELETE, OPTIONS, HEAD, TRACE; missing paths, falsy path items
  and falsy operations give nothing.  The pairs of path and method of the index are pairwise
  distinct when the keys of the paths object are.  An entry carries the path, the uppercased
  verb and the four fields of the operation as they are.
\<close>

theorem buildEndpointIndex_entries:
  "\<not> nullish document \<longrightarrow>
     buildEndpointIndex document =
       Inr (concat (map (\<lambda>(p, item). map (endpoint_entry p item)
              (filter (\<lambda>m. truthy item \<and> truthy (property item m)) http_methods))
            (entries_of (property document ''paths'')))) \<and>
     (\<forall>idx. buildEndpointIndex document = Inr idx \<longrightarrow>
        map (\<lambda>e. (path e, method e)) idx = verb_pairs (entries_of (property document ''paths'')) \<and>
        (distinct (map fst (entries_of (property document ''paths''))) \<longrightarrow>
           distinct (map (\<lambda>e. (path e, method e)) idx))) \<and>
     path (endpoint_entry p item m) = p \<and>
     method (endpoint_entry p item m) = toUpperCase m \<and>
     summary (endpoint_entry p item m) = property (property item m) ''summary'' \<and>
     description (endpoint_entry p item m) = property (property item m) ''description'' \<and>
     tags (endpoint_entry p item m) = property (property item m) ''tags'' \<and>
     operationId (endpoint_entry p item m) = property (property item m) ''operationId'' \<and>
     map toUpperCase http_methods =
       [''GET'', ''POST'', ''PUT'', ''PATCH'', ''DELETE'', ''OPTIONS'', ''HEAD'', ''TRACE'']"
proof (intro impI conjI allI)
  assume doc: "\<not> nullish document"
  show eq: "buildEndpointIndex document =
       Inr (concat (map (\<lambda>(p, item). map (endpoint_entry p item)
              (filter (\<lambda>m. truthy item \<and> truthy (property item m)) http_methods))
            (entries_of (property document ''paths''))))"
    using doc by (simp add: buildEndpointIndex_def paths_loop_eq entries_of_falsy)
  fix idx
  assume "buildEndpointIndex document = Inr idx"
  with eq show pairs: "map (\<lambda>e. (path e, method e)) idx =
      verb_pairs (entries_of (property document ''paths''))"
    by (simp add: index_pairs)
  assume "distinct (map fst (entries_of (property document ''paths'')))"
  then show "distinct (map (\<lambda>e. (path e, method e)) idx)"
    unfolding pairs by (rule distinct_verb_pairs)
qed (simp_all add: endpoint_entry_fields http_methods_def upper_methods)

theorem buildEndpointIndex_entries_witness:
  "\<not> nullish petstore \<and>
   buildEndpointIndex petstore = Inr [get_pets, post_pets] \<and>
   map (\<lambda>e. (path e, method e)) [get_pets, post_pets] = [(''/pets'', ''GET''), (''/pets'', ''POST'')] \<and>
   distinct (map fst (entries_of (property petstore ''paths''))) \<and>
   distinct (map (\<lambda>e. (path e, method e)) [get_pets, post_pets])"
proof -
  have n: "\<not> nullish petstore"
    by (simp add: nullish_def petstore_def)
  have b: "buildEndpointIndex petstore = Inr [get_pets, post_pets]"
    by (simp add: petstore_eval)
  have k: "distinct (map fst (entries_of (property petstore ''paths'')))"
    by (simp add: petstore_def)
  have m: "map (\<lambda>e. (path e, method e)) [get_pets, post_pets] =
      [(''/pets'', ''GET''), (''/pets'', ''POST'')]"
    by (simp add: get_pets_def post_pets_def)
  from buildEndpointIndex_entries [of petstore] n b k
  have "distinct (map (\<lambda>e. (path e, method e)) [get_pets, post_pets])"
    by blast
  with n b k m show ?thesis by blast
qed

section \<open>Exceptions of the resolver\<close>




section \<open>Schema details\<close>




section \<open>Stale cache\<close>

text \<open>What the call that started the fetch does when the fetch has failed: with a cache
  entry it returns the cached document and keeps the entry; without one it fails and the
  cache stays empty.\<close>

lemma getSpec_resume_failure:
  "getSpec_resume now (Inl e) m =
     (case cache m of
        Some c \<Rightarrow> (Inr (spec c), m\<lparr>fetchPromise := False\<rparr>)
      | None \<Rightarrow> (Inl e, m\<lparr>fetchPromise := False\<rparr>))"
  by (simp add: getSpec_resume_def)

text \<open>
  Claim C6 does not hold of the source for a caller that joins a fetch in flight.  A first
  fetch, started at time 0, succeeds and fills the cache; at time 100, past the time to live
  of 10, caller 1 starts a second fetch and caller 2 joins it; the fetch fails.  Caller 1 gets
  the stale document and the cache entry of the first fetch is kept, but caller 2, who was
  handed the promise of the fetch itself, gets the failure.
\<close>

theorem stale_fallback_skips_joiners:
  "returned (run 10 [Call 0 0, FetchSettles 1 (Inr petstore), Call 1 100, Call 2 100,
      FetchSettles 101 (Inl (Error ''network''))]) =
     [(0, Inr petstore), (1, Inr petstore), (2, Inl (Error ''network''))] \<and>
   cache (manager (run 10 [Call 0 0, FetchSettles 1 (Inr petstore), Call 1 100, Call 2 100,
      FetchSettles 101 (Inl (Error ''network''))])) =
     map_option (\<lambda>c. c\<lparr>fetchedAt := 1\<rparr>) petstore_cache"
  by (simp add: run_def getSpec_enter_def join_or_fetch_def getSpec_resume_def petstore_eval)

end
